theory Spec2Isabelle
  imports Complex_Main "HOL-Library.AList" "HOL-Library.Sublist"
begin

section \<open>JavaScript values\<close>

text \<open>
  The screen \<^verbatim>\<open>EnhancedMyOrders.tsx\<close> handles untyped JSON: the parsed user profile and the
  body of the HTTP response. A value is one of JavaScript's JSON-shaped values; an object is
  an association list read through \<open>map_of\<close> (the first binding of a key is the one seen).
  Strings are lists of \<open>char\<close>, read as code points below 256.
\<close>

datatype js_error =
    Error string
  | TypeError
  | SyntaxError
  | AxiosError string

datatype jsval =
    JUndefined
  | JNull
  | JBool bool
  | JNum real
  | JStr string
  | JArr "jsval list"
  | JObj "(string \<times> jsval) list"

type_synonym obj = "(string \<times> jsval) list"

text \<open>Truthiness, as tested by \<^verbatim>\<open>if (v)\<close>, \<^verbatim>\<open>!v\<close> and \<^verbatim>\<open>v || w\<close>.\<close>

fun truthy :: "jsval \<Rightarrow> bool" where
  "truthy JUndefined = False"
| "truthy JNull = False"
| "truthy (JBool b) = b"
| "truthy (JNum x) = (x \<noteq> 0)"
| "truthy (JStr s) = (s \<noteq> [])"
| "truthy (JArr xs) = True"
| "truthy (JObj kvs) = True"

fun isArray :: "jsval \<Rightarrow> bool" where
  "isArray (JArr xs) = True"
| "isArray _ = False"

text \<open>Reading the property \<open>k\<close> of an object: a missing key reads as \<^verbatim>\<open>undefined\<close>.\<close>

definition field :: "obj \<Rightarrow> string \<Rightarrow> jsval" where
  "field kvs k = (case map_of kvs k of None \<Rightarrow> JUndefined | Some v \<Rightarrow> v)"

text \<open>
  The member access \<^verbatim>\<open>v.k\<close>. On \<^verbatim>\<open>null\<close> and \<^verbatim>\<open>undefined\<close> it throws a TypeError. The screen
  reads only the keys \<^verbatim>\<open>success\<close>, \<^verbatim>\<open>data\<close>, \<^verbatim>\<open>products\<close>, \<^verbatim>\<open>_id\<close>, \<^verbatim>\<open>id\<close> and \<^verbatim>\<open>status\<close>: none of
  them is a property of a number, a boolean, a string or an array, where the access gives
  \<^verbatim>\<open>undefined\<close>.
\<close>

fun get_prop :: "jsval \<Rightarrow> string \<Rightarrow> js_error + jsval" where
  "get_prop JUndefined k = Inl TypeError"
| "get_prop JNull k = Inl TypeError"
| "get_prop (JObj kvs) k = Inr (field kvs k)"
| "get_prop (JBool b) k = Inr JUndefined"
| "get_prop (JNum x) k = Inr JUndefined"
| "get_prop (JStr s) k = Inr JUndefined"
| "get_prop (JArr xs) k = Inr JUndefined"

text \<open>Decimal rendering of an array index, the property keys of a spread array or string.\<close>

fun show_nat :: "nat \<Rightarrow> string" where
  "show_nat n =
     (if n < 10 then [char_of (48 + n)]
      else show_nat (n div 10) @ [char_of (48 + n mod 10)])"

text \<open>
  The object spread \<^verbatim>\<open>{...v}\<close>: the own enumerable properties of \<open>v\<close>. An object gives its
  bindings, an array and a string give their indexed elements, every other value gives none.
\<close>

fun spread :: "jsval \<Rightarrow> obj" where
  "spread (JObj kvs) = kvs"
| "spread (JArr xs) = zip (map show_nat [0..<length xs]) xs"
| "spread (JStr s) = zip (map show_nat [0..<length s]) (map (\<lambda>c. JStr [c]) s)"
| "spread JUndefined = []"
| "spread JNull = []"
| "spread (JBool b) = []"
| "spread (JNum x) = []"

text \<open>\<^verbatim>\<open>Array.prototype.map\<close> with a callback that may throw: the first throw ends the call.\<close>

fun array_map :: "('a \<Rightarrow> js_error + 'b) \<Rightarrow> 'a list \<Rightarrow> js_error + 'b list" where
  "array_map f [] = Inr []"
| "array_map f (x # xs) =
     (case f x of
        Inl e \<Rightarrow> Inl e
      | Inr y \<Rightarrow> (case array_map f xs of Inl e \<Rightarrow> Inl e | Inr ys \<Rightarrow> Inr (y # ys)))"

text \<open>
  The method call \<^verbatim>\<open>v.map(f)\<close>: only an array has a callable \<^verbatim>\<open>map\<close>; on \<^verbatim>\<open>null\<close> and
  \<^verbatim>\<open>undefined\<close> the access throws, on every other value \<^verbatim>\<open>map\<close> is not a function.
\<close>

definition call_map :: "jsval \<Rightarrow> (jsval \<Rightarrow> js_error + 'b) \<Rightarrow> js_error + 'b list" where
  "call_map v f = (case v of JArr xs \<Rightarrow> array_map f xs | _ \<Rightarrow> Inl TypeError)"

text \<open>
  The string conversion of a value inside a template literal. A number is converted by
  \<open>nt\<close>, the decimal text of a number, which is a parameter. An array is joined with commas,
  \<^verbatim>\<open>null\<close> and \<^verbatim>\<open>undefined\<close> elements giving the empty text. An object without an own
  \<^verbatim>\<open>toString\<close> key gives \<^verbatim>\<open>[object Object]\<close>; with such a key (a JSON value, which is never
  callable) the inherited \<^verbatim>\<open>valueOf\<close> returns the object itself and the conversion throws a
  TypeError.
\<close>

fun js_string :: "(real \<Rightarrow> string) \<Rightarrow> jsval \<Rightarrow> js_error + string"
  and js_join :: "(real \<Rightarrow> string) \<Rightarrow> jsval list \<Rightarrow> js_error + string" where
  "js_string nt JUndefined = Inr ''undefined''"
| "js_string nt JNull = Inr ''null''"
| "js_string nt (JBool b) = Inr (if b then ''true'' else ''false'')"
| "js_string nt (JNum x) = Inr (nt x)"
| "js_string nt (JStr s) = Inr s"
| "js_string nt (JArr xs) = js_join nt xs"
| "js_string nt (JObj kvs) =
     (if map_of kvs ''toString'' = None then Inr ''[object Object]'' else Inl TypeError)"
| "js_join nt [] = Inr []"
| "js_join nt (x # xs) =
     (case (if x = JUndefined \<or> x = JNull then Inr [] else js_string nt x) of
        Inl err \<Rightarrow> Inl err
      | Inr s \<Rightarrow>
          if xs = [] then Inr s
          else (case js_join nt xs of Inl err \<Rightarrow> Inl err | Inr t \<Rightarrow> Inr (s @ '','' @ t)))"

section \<open>String operations of the filter\<close>

text \<open>
  \<^verbatim>\<open>String.prototype.toLowerCase\<close> on code points below 256: the letters A to Z and the
  accented capitals U+00C0 to U+00DE (without the multiplication sign U+00D7) move up by 32.
\<close>

definition isUpper :: "char \<Rightarrow> bool" where
  "isUpper c = (let n = (of_char c :: nat) in
     (65 \<le> n \<and> n \<le> 90) \<or> (192 \<le> n \<and> n \<le> 222 \<and> n \<noteq> 215))"

definition lowerChar :: "char \<Rightarrow> char" where
  "lowerChar c = (if isUpper c then char_of ((of_char c :: nat) + 32) else c)"

definition toLowerCase :: "string \<Rightarrow> string" where
  "toLowerCase s = map lowerChar s"

text \<open>
  The class \<^verbatim>\<open>\s\<close> of a JavaScript regular expression, below 256: tab, line feed, vertical
  tab, form feed, carriage return, space and the no-break space.
\<close>

definition isSpace :: "char \<Rightarrow> bool" where
  "isSpace c = ((of_char c :: nat) \<in> {9, 10, 11, 12, 13, 32, 160})"

text \<open>\<^verbatim>\<open>s.replace(/\s+/g, '_')\<close>: every maximal run of white space becomes one underscore.\<close>

function replaceSpaceRuns :: "string \<Rightarrow> string" where
  "replaceSpaceRuns [] = []"
| "replaceSpaceRuns (c # cs) =
     (if isSpace c then CHR ''_'' # replaceSpaceRuns (dropWhile isSpace cs)
      else c # replaceSpaceRuns cs)"
  by pat_completeness auto
termination
  by (relation "measure length") (auto simp: length_dropWhile_le less_Suc_eq_le)

section \<open>The filter engine\<close>

text \<open>
  Lines 106 to 111:
  \<^verbatim>\<open>
  const filteredOrders = selectedFilter === 'All'
    ? orders
    : orders.filter(order => {
        const status = selectedFilter.toLowerCase().replace(/\s+/g, '_');
        return order.status === status;
      });
  \<close>
  \<open>statusCode\<close> is the local constant \<^verbatim>\<open>status\<close> of the callback.
\<close>

definition statusCode :: "string \<Rightarrow> string" where
  "statusCode selectedFilter = replaceSpaceRuns (toLowerCase selectedFilter)"

definition filteredOrders :: "obj list \<Rightarrow> string \<Rightarrow> obj list" where
  "filteredOrders orders selectedFilter =
     (if selectedFilter = ''All'' then orders
      else filter (\<lambda>order. field order ''status'' = JStr (statusCode selectedFilter)) orders)"

text \<open>The filter buttons offered by the screen (line 51).\<close>

definition orderFilters :: "string list" where
  "orderFilters = [''All'', ''Order Confirmed'', ''Processing'', ''Shipped'',
     ''Out for Delivery'', ''Delivered'', ''Cancelled'']"

text \<open>
  The specification's wording of the normalisation, for comparison: the label is cut into its
  maximal runs of white space and of other characters; a run of white space becomes one
  underscore, every other run is lower-cased.
\<close>

fun runs :: "string \<Rightarrow> (bool \<times> string) list" where
  "runs [] = []"
| "runs (c # cs) =
     (case runs cs of
        [] \<Rightarrow> [(isSpace c, [c])]
      | (b, r) # rs \<Rightarrow>
          if b = isSpace c then (b, c # r) # rs else (isSpace c, [c]) # (b, r) # rs)"

definition specNormalize :: "string \<Rightarrow> string" where
  "specNormalize label =
     concat (map (\<lambda>(sp, run). if sp then ''_'' else toLowerCase run) (runs label))"

section \<open>Screen state and effects\<close>

text \<open>
  The four \<^verbatim>\<open>useState\<close> cells of the component (lines 46 to 49) with their initial values.
  Orders held in the state are the objects built by the normalising spread.
\<close>

record screen =
  orders :: "obj list"
  loading :: bool
  refreshing :: bool
  selectedFilter :: string

definition initialScreen :: screen where
  "initialScreen =
     \<lparr>orders = [], loading = True, refreshing = False, selectedFilter = ''all''\<rparr>"

text \<open>
  The request of line 74: its URL and the value of its \<^verbatim>\<open>Authorization\<close> header.
\<close>

record request =
  url :: string
  authorization :: string

datatype net_result =
    Rejected js_error
  | Resolved jsval

text \<open>
  What \<^verbatim>\<open>fetchOrders\<close> does to the outside, in program order: the HTTP request, the calls of
  the state setters, console output and the alert dialog.
\<close>

datatype effect =
    AxiosGet request
  | SetOrders "obj list"
  | SetLoading bool
  | SetRefreshing bool
  | ConsoleLog nat
  | ConsoleError js_error
  | AlertAlert string string

fun applyEffect :: "effect \<Rightarrow> screen \<Rightarrow> screen" where
  "applyEffect (SetOrders os) s = s\<lparr>orders := os\<rparr>"
| "applyEffect (SetLoading b) s = s\<lparr>loading := b\<rparr>"
| "applyEffect (SetRefreshing b) s = s\<lparr>refreshing := b\<rparr>"
| "applyEffect (AxiosGet rq) s = s"
| "applyEffect (ConsoleLog n) s = s"
| "applyEffect (ConsoleError e) s = s"
| "applyEffect (AlertAlert t m) s = s"

definition applyEffects :: "effect list \<Rightarrow> screen \<Rightarrow> screen" where
  "applyEffects effs s = fold applyEffect effs s"

fun isAlert :: "effect \<Rightarrow> bool" where
  "isAlert (AlertAlert t m) = True"
| "isAlert _ = False"

fun isRequest :: "effect \<Rightarrow> bool" where
  "isRequest (AxiosGet rq) = True"
| "isRequest _ = False"

fun isSetter :: "effect \<Rightarrow> bool" where
  "isSetter (SetOrders os) = True"
| "isSetter (SetLoading b) = True"
| "isSetter (SetRefreshing b) = True"
| "isSetter _ = False"

fun isErrorLog :: "effect \<Rightarrow> bool" where
  "isErrorLog (ConsoleError e) = True"
| "isErrorLog _ = False"

fun isSetOrders :: "effect \<Rightarrow> bool" where
  "isSetOrders (SetOrders os) = True"
| "isSetOrders _ = False"

definition alerts :: "effect list \<Rightarrow> nat" where
  "alerts effs = length (filter isAlert effs)"

definition networkCalls :: "effect list \<Rightarrow> nat" where
  "networkCalls effs = length (filter isRequest effs)"

section \<open>The backend locator\<close>

text \<open>
  \<^verbatim>\<open>backendConfig\<close>: the base URL is a constant.
\<close>

definition API_BASE_URL :: string where
  "API_BASE_URL = ''https://dummy-bac.onrender.com''"

definition getBackendUrl :: string where
  "getBackendUrl = API_BASE_URL"

text \<open>\<^verbatim>\<open>s.includes(pat)\<close>: \<open>pat\<close> occurs in \<open>s\<close> at some position.\<close>

fun str_includes :: "string \<Rightarrow> string \<Rightarrow> bool" where
  "str_includes [] pat = (pat = [])"
| "str_includes (c # cs) pat = (prefix pat (c # cs) \<or> str_includes cs pat)"

text \<open>
  \<^verbatim>\<open>s.replace(/http:\/\/[^/]+/, r)\<close>: the leftmost place where \<^verbatim>\<open>http://\<close> is followed by at
  least one character other than a slash; the match runs up to the next slash or the end of
  the string and is replaced by \<open>r\<close>. Without a match the string is returned as it is. The
  replacement used by the code, the base URL, has no dollar sign, so it is inserted
  literally.
\<close>

fun replaceOrigin :: "string \<Rightarrow> string \<Rightarrow> string" where
  "replaceOrigin [] r = []"
| "replaceOrigin (c # cs) r =
     (if prefix ''http://'' (c # cs) \<and>
         (case drop 7 (c # cs) of [] \<Rightarrow> False | d # ds \<Rightarrow> d \<noteq> CHR ''/'')
      then r @ dropWhile (\<lambda>d. d \<noteq> CHR ''/'') (drop 7 (c # cs))
      else c # replaceOrigin cs r)"

text \<open>
  \<^verbatim>\<open>getImageUrl\<close>, with its checks in the order of the source.
\<close>

definition getImageUrl :: "string \<Rightarrow> string" where
  "getImageUrl imagePath =
     (if imagePath = [] then []
      else let backendUrl = getBackendUrl in
        if prefix ''http'' imagePath then
          (if str_includes imagePath ''localhost'' \<or> str_includes imagePath ''127.0.0.1''
           then replaceOrigin imagePath backendUrl
           else imagePath)
        else if prefix ''/uploads/'' imagePath then backendUrl @ imagePath
        else if prefix ''uploads/'' imagePath then backendUrl @ ''/'' @ imagePath
        else backendUrl @ ''/uploads/'' @ imagePath)"

text \<open>The specification's notion of an absolute URL: a web scheme followed by an authority.\<close>

definition absoluteUrl :: "string \<Rightarrow> bool" where
  "absoluteUrl u = (prefix ''http://'' u \<or> prefix ''https://'' u)"

section \<open>The order fetcher\<close>

text \<open>
  The surroundings of a call: the credential store (\<^verbatim>\<open>AsyncStorage.getItem\<close>, \<open>None\<close> for
  \<^verbatim>\<open>null\<close>), \<^verbatim>\<open>JSON.parse\<close> (\<open>None\<close> when it throws a SyntaxError), the decimal text of a
  number (the conversion of a number to a string) and the network (\<^verbatim>\<open>axios.get\<close>, which
  rejects on a transport error or a status outside 2xx and otherwise resolves with the
  parsed body as \<^verbatim>\<open>response.data\<close>).
\<close>

record env =
  storage :: "string \<Rightarrow> string option"
  json_parse :: "string \<Rightarrow> jsval option"
  number_text :: "real \<Rightarrow> string"
  axios_get :: "request \<Rightarrow> net_result"

text \<open>A stored item is falsy when it is \<^verbatim>\<open>null\<close> or the empty string.\<close>

definition present :: "string option \<Rightarrow> bool" where
  "present v = (case v of None \<Rightarrow> False | Some s \<Rightarrow> s \<noteq> [])"

text \<open>
  Lines 64 to 76, up to the point where the request is issued:
  \<^verbatim>\<open>
  const token = await AsyncStorage.getItem('userToken') || await AsyncStorage.getItem('authToken');
  const userProfile = await AsyncStorage.getItem('userProfile');
  if (!token || !userProfile) {
    throw new Error('User not authenticated');
  }
  const userData = JSON.parse(userProfile);
  const backendUrl = getBackendUrl();
  const response = await axios.get(`${backendUrl}/api/orders/customer/${userData._id || userData.id}`, {
    headers: { Authorization: `Bearer ${token}` }
  });
  \<close>
  The template literal converts the value of \<^verbatim>\<open>userData._id || userData.id\<close> to a string;
  a throw of that conversion comes before the request.
\<close>

definition readCredentials :: "env \<Rightarrow> js_error + request" where
  "readCredentials e =
     (let token = (if present (storage e ''userToken'') then storage e ''userToken''
                   else storage e ''authToken'');
          userProfile = storage e ''userProfile''
      in if \<not> present token \<or> \<not> present userProfile
         then Inl (Error ''User not authenticated'')
         else
           (case (token, userProfile) of
              (Some tok, Some profile) \<Rightarrow>
                (case json_parse e profile of
                   None \<Rightarrow> Inl SyntaxError
                 | Some userData \<Rightarrow>
                     (let backendUrl = getBackendUrl
                      in case get_prop userData ''_id'' of
                           Inl err \<Rightarrow> Inl err
                         | Inr uid \<Rightarrow>
                             (case (if truthy uid then Inr uid else get_prop userData ''id'') of
                                Inl err \<Rightarrow> Inl err
                              | Inr cid \<Rightarrow>
                                  (case js_string (number_text e) cid of
                                     Inl err \<Rightarrow> Inl err
                                   | Inr text \<Rightarrow>
                                       Inr \<lparr>url = backendUrl @ ''/api/orders/customer/'' @ text,
                                            authorization = ''Bearer '' @ tok\<rparr>))))
            | _ \<Rightarrow> Inl (Error ''User not authenticated'')))"

text \<open>
  The callback of line 80: \<^verbatim>\<open>order => ({ ...order, products: order.products || [] })\<close>.
  The key \<^verbatim>\<open>products\<close> keeps its place when the record has it and is appended otherwise.
\<close>

definition withValidProducts :: "jsval \<Rightarrow> js_error + obj" where
  "withValidProducts order =
     (case get_prop order ''products'' of
        Inl err \<Rightarrow> Inl err
      | Inr products \<Rightarrow>
          Inr (AList.update ''products'' (if truthy products then products else JArr [])
                 (spread order)))"

text \<open>
  Lines 78 to 87, applied to \<^verbatim>\<open>response.data\<close>:
  \<^verbatim>\<open>
  if (response.data.success) {
    const ordersWithValidProducts = response.data.data.map(order => ({
      ...order,
      products: order.products || []
    }));
    setOrders(ordersWithValidProducts);
    console.log('Loaded orders with products:', ordersWithValidProducts.length);
  }
  \<close>
  There is no \<^verbatim>\<open>else\<close>.
\<close>

definition handleResponse :: "jsval \<Rightarrow> js_error + effect list" where
  "handleResponse data =
     (case get_prop data ''success'' of
        Inl err \<Rightarrow> Inl err
      | Inr success \<Rightarrow>
          if truthy success then
            (case get_prop data ''data'' of
               Inl err \<Rightarrow> Inl err
             | Inr d \<Rightarrow>
                 (case call_map d withValidProducts of
                    Inl err \<Rightarrow> Inl err
                  | Inr ordersWithValidProducts \<Rightarrow>
                      Inr [SetOrders ordersWithValidProducts,
                           ConsoleLog (length ordersWithValidProducts)]))
          else Inr [])"

text \<open>
  The \<^verbatim>\<open>catch\<close> block (lines 88 to 93) and the \<^verbatim>\<open>finally\<close> block (lines 94 to 97).
  The argument \<open>refr\<close> is the \<^verbatim>\<open>refreshing\<close> constant of the render whose closure runs:
  \<^verbatim>\<open>fetchOrders\<close> is declared inside the component, so it reads the \<^verbatim>\<open>refreshing\<close> of the
  render that created it.
  \<^verbatim>\<open>
  } catch (error) {
    console.error('Error fetching orders:', error);
    // Don't show alert on background refresh
    if (!refreshing) {
      Alert.alert('Error', 'Failed to load orders. Please try again.');
    }
  } finally {
    setLoading(false);
    setRefreshing(false);
  }
  \<close>
\<close>

definition onCatch :: "bool \<Rightarrow> js_error \<Rightarrow> effect list" where
  "onCatch refr err =
     ConsoleError err #
     (if \<not> refr then [AlertAlert ''Error'' ''Failed to load orders. Please try again.'']
      else [])"

definition onFinally :: "effect list" where
  "onFinally = [SetLoading False, SetRefreshing False]"

text \<open>The rest of \<^verbatim>\<open>fetchOrders\<close> once the awaited request has settled.\<close>

definition afterRequest :: "bool \<Rightarrow> net_result \<Rightarrow> effect list" where
  "afterRequest refr res =
     (case res of
        Rejected err \<Rightarrow> onCatch refr err
      | Resolved data \<Rightarrow>
          (case handleResponse data of
             Inl err \<Rightarrow> onCatch refr err
           | Inr effs \<Rightarrow> effs))
     @ onFinally"

text \<open>One whole call of \<^verbatim>\<open>fetchOrders\<close> (lines 62 to 98).\<close>

definition fetchOrders :: "bool \<Rightarrow> env \<Rightarrow> effect list" where
  "fetchOrders refr e =
     (case readCredentials e of
        Inl err \<Rightarrow> onCatch refr err @ onFinally
      | Inr rq \<Rightarrow> AxiosGet rq # afterRequest refr (axios_get e rq))"

text \<open>
  The error thrown inside the \<^verbatim>\<open>try\<close> block of one call, if any: the attempt fails exactly
  when this is not \<open>None\<close>.
\<close>

definition thrown :: "env \<Rightarrow> js_error option" where
  "thrown e =
     (case readCredentials e of
        Inl err \<Rightarrow> Some err
      | Inr rq \<Rightarrow>
          (case axios_get e rq of
             Rejected err \<Rightarrow> Some err
           | Resolved data \<Rightarrow>
               (case handleResponse data of Inl err \<Rightarrow> Some err | Inr effs \<Rightarrow> None)))"

section \<open>The refresh scheduler\<close>

text \<open>
  The life of the component as a step function. Lines 53 to 59 and 101 to 104:
  \<^verbatim>\<open>
  useEffect(() => {
    fetchOrders();
    const interval = setInterval(fetchOrders, 30000);
    return () => clearInterval(interval);
  }, []);

  const onRefresh = async () => {
    setRefreshing(true);
    await fetchOrders();
  };
  \<close>
  The effect has no dependencies, so it runs once, and both the first call and the timer use
  the \<^verbatim>\<open>fetchOrders\<close> of the first render, whose \<^verbatim>\<open>refreshing\<close> is the initial \<^verbatim>\<open>false\<close>.
  \<^verbatim>\<open>onRefresh\<close> belongs to the render on screen when the user pulls: its \<^verbatim>\<open>fetchOrders\<close> reads
  the \<^verbatim>\<open>refreshing\<close> of that render, the value before \<^verbatim>\<open>setRefreshing(true)\<close>. The pull
  gesture exists only while the order list is drawn (lines 248 and 280): not while
  \<^verbatim>\<open>loading\<close>, and not while the visible list is empty.

  A call is suspended at the awaited request (the reads of the store are taken to complete
  at once); \<open>inflight\<close> holds the \<^verbatim>\<open>refreshing\<close> constant of each suspended call. The event
  \<open>Settle i res\<close> resumes the call at position \<open>i\<close> with the outcome of its request.
  \<open>issued\<close> lists every effect in order, and \<open>view\<close> is the state of the screen.
  \<open>phase\<close> tells whether the screen is on display: it gates the events of the user and of
  the lifecycle. The resumed call reads no such flag, the source has none.
  The outcome of a request comes with its \<open>Settle\<close> event: a step reads the store and the
  parser of the surroundings, not \<open>axios_get\<close>.
\<close>

datatype event =
    Mount
  | Tick
  | PullToRefresh
  | Settle nat net_result
  | SelectFilter string
  | Unmount

datatype phase = Fresh | Mounted | Unmounted

record component =
  view :: screen
  phase :: phase
  interval :: bool
  inflight :: "bool list"
  issued :: "effect list"

definition initialComponent :: component where
  "initialComponent =
     \<lparr>view = initialScreen, phase = Fresh, interval = False, inflight = [], issued = []\<rparr>"

text \<open>
  The effects of a piece of code are logged, and its setter calls reach the state of the
  screen while the screen is mounted. React keeps the state of a component only as long as
  it is mounted: a setter called after the unmount changes nothing, the update is
  discarded. The call itself is still made, and logged.
\<close>

definition issue :: "effect list \<Rightarrow> component \<Rightarrow> component" where
  "issue effs c =
     c\<lparr>view := (if phase c = Unmounted then view c else applyEffects effs (view c)),
       issued := issued c @ effs\<rparr>"

definition startFetch :: "bool \<Rightarrow> env \<Rightarrow> component \<Rightarrow> component" where
  "startFetch r e c =
     (case readCredentials e of
        Inl err \<Rightarrow> issue (onCatch r err @ onFinally) c
      | Inr rq \<Rightarrow> (issue [AxiosGet rq] c)\<lparr>inflight := inflight c @ [r]\<rparr>)"

fun step :: "env \<Rightarrow> component \<Rightarrow> event \<Rightarrow> component" where
  "step e c Mount =
     (if phase c = Fresh
      then (startFetch (refreshing initialScreen) e c)\<lparr>phase := Mounted, interval := True\<rparr>
      else c)"
| "step e c Tick =
     (if interval c then startFetch (refreshing initialScreen) e c else c)"
| "step e c PullToRefresh =
     (if phase c = Mounted \<and> \<not> loading (view c)
         \<and> filteredOrders (orders (view c)) (selectedFilter (view c)) \<noteq> []
      then (let r = refreshing (view c) in startFetch r e (issue [SetRefreshing True] c))
      else c)"
| "step e c (Settle i res) =
     (if i < length (inflight c)
      then issue (afterRequest (inflight c ! i) res)
             (c\<lparr>inflight := take i (inflight c) @ drop (Suc i) (inflight c)\<rparr>)
      else c)"
| "step e c (SelectFilter label) =
     (if phase c = Mounted \<and> \<not> loading (view c) \<and> label \<in> set orderFilters
      then c\<lparr>view := (view c)\<lparr>selectedFilter := label\<rparr>\<rparr>
      else c)"
| "step e c Unmount =
     (if phase c = Mounted then c\<lparr>phase := Unmounted, interval := False\<rparr> else c)"

definition run :: "env \<Rightarrow> component \<Rightarrow> event list \<Rightarrow> component" where
  "run e c evs = foldl (step e) c evs"

text \<open>The effects a step adds to the log.\<close>

definition stepEffects :: "env \<Rightarrow> component \<Rightarrow> event \<Rightarrow> effect list" where
  "stepEffects e c ev = drop (length (issued c)) (issued (step e c ev))"

fun isSelect :: "event \<Rightarrow> bool" where
  "isSelect (SelectFilter label) = True"
| "isSelect _ = False"

section \<open>Example inputs\<close>

text \<open>
  A credential store holding a token and the profile text \<^verbatim>\<open>{"_id":"u1"}\<close>, the parse of that
  text, the decimal text of the whole numbers from zero on (the examples convert no other
  number), and a network that settles every request with a given outcome.
\<close>

definition dq :: string where
  "dq = [CHR 0x22]"

definition exampleProfile :: string where
  "exampleProfile = ''{'' @ dq @ ''_id'' @ dq @ '':'' @ dq @ ''u1'' @ dq @ ''}''"

definition exampleNumberText :: "real \<Rightarrow> string" where
  "exampleNumberText x = show_nat (nat \<lfloor>x\<rfloor>)"

definition exampleStorage :: "string \<Rightarrow> string option" where
  "exampleStorage k =
     (if k = ''userToken'' then Some ''t0k3n''
      else if k = ''userProfile'' then Some exampleProfile
      else None)"

definition exampleParse :: "string \<Rightarrow> jsval option" where
  "exampleParse s =
     (if s = exampleProfile then Some (JObj [(''_id'', JStr ''u1'')]) else None)"

definition exampleEnv :: "net_result \<Rightarrow> env" where
  "exampleEnv res =
     \<lparr>storage = exampleStorage, json_parse = exampleParse,
      number_text = exampleNumberText, axios_get = (\<lambda>rq. res)\<rparr>"

definition exampleRequest :: request where
  "exampleRequest =
     \<lparr>url = ''https://dummy-bac.onrender.com/api/orders/customer/u1'',
      authorization = ''Bearer t0k3n''\<rparr>"

text \<open>
  The body \<^verbatim>\<open>{success: true, data: [{orderId: "A1", status: "processing", totalAmount: 100}]}\<close>,
  whose only order has no \<^verbatim>\<open>products\<close>, and the normalised order it gives.
\<close>

definition exampleBody :: jsval where
  "exampleBody =
     JObj [(''success'', JBool True),
           (''data'', JArr [JObj [(''orderId'', JStr ''A1''),
                                  (''status'', JStr ''processing''),
                                  (''totalAmount'', JNum 100)]])]"

definition exampleOrder :: obj where
  "exampleOrder =
     [(''orderId'', JStr ''A1''), (''status'', JStr ''processing''),
      (''totalAmount'', JNum 100), (''products'', JArr [])]"

text \<open>
  A store with nothing in it and a store with a token but no profile; the network of both
  would answer with the example body. A rejecting body \<^verbatim>\<open>{success: false, error: ...}\<close> and a
  transport error.
\<close>

definition emptyStoreEnv :: env where
  "emptyStoreEnv =
     \<lparr>storage = (\<lambda>k. None), json_parse = exampleParse,
      number_text = exampleNumberText, axios_get = (\<lambda>rq. Resolved exampleBody)\<rparr>"

definition tokenOnlyEnv :: env where
  "tokenOnlyEnv =
     \<lparr>storage = (\<lambda>k. if k = ''authToken'' then Some ''t0k3n'' else None),
      json_parse = exampleParse,
      number_text = exampleNumberText,
      axios_get = (\<lambda>rq. Resolved exampleBody)\<rparr>"

definition rejectedBody :: jsval where
  "rejectedBody = JObj [(''success'', JBool False), (''error'', JStr ''Customer not found'')]"

definition networkError :: js_error where
  "networkError = AxiosError ''Network Error''"

definition failureAlert :: effect where
  "failureAlert = AlertAlert ''Error'' ''Failed to load orders. Please try again.''"

section \<open>Theorems\<close>

subsection \<open>Filter engine\<close>

text \<open>
  Claim C4. When the filter label is the literal \<open>All\<close>, the visible list is the stored order
  list itself: same elements, same order.
\<close>

theorem filteredOrders_All_identity:
  "filteredOrders os ''All'' = os"
  by (simp add: filteredOrders_def)

text \<open>The normalisation of the label, and its agreement with the specification's wording.\<close>

lemma of_char_lowerChar:
  "isUpper c \<Longrightarrow> (of_char (lowerChar c) :: nat) = of_char c + 32"
  by (auto simp: lowerChar_def isUpper_def Let_def)

lemma isSpace_lowerChar [simp]: "isSpace (lowerChar c) = isSpace c"
proof (cases "isUpper c")
  case True
  then have "(of_char (lowerChar c) :: nat) = of_char c + 32"
    by (rule of_char_lowerChar)
  with True show ?thesis
    by (auto simp: isSpace_def isUpper_def Let_def)
next
  case False
  then show ?thesis by (simp add: lowerChar_def)
qed

lemma isSpace_underscore [simp]: "\<not> isSpace CHR ''_''"
  by (simp add: isSpace_def)

lemma dropWhile_isSpace_toLowerCase:
  "dropWhile isSpace (toLowerCase s) = toLowerCase (dropWhile isSpace s)"
  by (induction s) (simp_all add: toLowerCase_def)

text \<open>
  \<open>runs\<close> cuts a label into pieces that give the label back, each piece of one class, and
  neighbouring pieces of different classes: the pieces are the maximal runs.
\<close>

lemma runs_eq_Nil [simp]: "runs s = [] \<longleftrightarrow> s = []"
  by (cases s) (auto split: list.splits)

lemma concat_runs: "concat (map snd (runs s)) = s"
  by (induction s) (auto split: list.splits)

lemma runs_homogeneous:
  "(b, r) \<in> set (runs s) \<Longrightarrow> r \<noteq> [] \<and> (\<forall>c\<in>set r. isSpace c = b)"
proof (induction s arbitrary: b r)
  case Nil
  then show ?case by simp
next
  case (Cons a s)
  show ?case
  proof (cases "runs s")
    case Nil
    with Cons.prems show ?thesis by auto
  next
    case (Cons p ps)
    obtain b' r' where p: "p = (b', r')" by (cases p)
    have ih: "r' \<noteq> [] \<and> (\<forall>c\<in>set r'. isSpace c = b')"
      using Cons.IH[of b' r'] Cons p by simp
    have rest: "r \<noteq> [] \<and> (\<forall>c\<in>set r. isSpace c = b)" if "(b, r) \<in> set ps" for b r
      using Cons.IH[of b r] Cons that by simp
    from Cons.prems Cons p ih rest show ?thesis
      by (auto split: if_splits)
  qed
qed

lemma runs_alternate:
  "runs s = us @ (b, r) # (b', r') # vs \<Longrightarrow> b' \<noteq> b"
proof (induction s arbitrary: us b r b' r' vs)
  case Nil
  then show ?case by simp
next
  case (Cons a s)
  show ?case
  proof (cases "runs s")
    case Nil
    with Cons.prems show ?thesis by (cases us) auto
  next
    case (Cons p ps)
    obtain c q where p: "p = (c, q)" by (cases p)
    show ?thesis
    proof (cases us)
      case Nil
      with Cons.prems Cons p Cons.IH[of "[]" c q b' r' vs] show ?thesis
        by (auto split: if_splits)
    next
      case (Cons u us')
      with Cons.prems \<open>runs s = p # ps\<close> p
        Cons.IH[of us' b r b' r' vs] Cons.IH[of "(c, q) # us'" b r b' r' vs]
      show ?thesis
        by (auto split: if_splits)
    qed
  qed
qed

lemma statusCode_Nil [simp]: "statusCode [] = []"
  by (simp add: statusCode_def toLowerCase_def)

lemma statusCode_nonspace:
  "\<not> isSpace c \<Longrightarrow> statusCode (c # s) = lowerChar c # statusCode s"
  by (simp add: statusCode_def toLowerCase_def)

lemma statusCode_space:
  "isSpace c \<Longrightarrow> statusCode (c # s) = CHR ''_'' # statusCode (dropWhile isSpace s)"
  using dropWhile_isSpace_toLowerCase[of s]
  by (simp add: statusCode_def toLowerCase_def)

lemma specNormalize_Nil [simp]: "specNormalize [] = []"
  by (simp add: specNormalize_def)

lemma specNormalize_nonspace:
  "\<not> isSpace c \<Longrightarrow> specNormalize (c # s) = lowerChar c # specNormalize s"
  by (auto simp: specNormalize_def toLowerCase_def split: list.splits)

lemma specNormalize_space_space:
  "isSpace c \<Longrightarrow> isSpace d \<Longrightarrow> specNormalize (c # d # s) = specNormalize (d # s)"
  by (auto simp: specNormalize_def toLowerCase_def split: list.splits)

lemma specNormalize_space_end:
  "isSpace c \<Longrightarrow> specNormalize [c] = ''_''"
  by (auto simp: specNormalize_def)

lemma specNormalize_space_nonspace:
  "isSpace c \<Longrightarrow> \<not> isSpace d \<Longrightarrow>
   specNormalize (c # d # s) = CHR ''_'' # specNormalize (d # s)"
  by (auto simp: specNormalize_def toLowerCase_def split: list.splits)

lemma specNormalize_space:
  "isSpace c \<Longrightarrow> specNormalize (c # s) = CHR ''_'' # specNormalize (dropWhile isSpace s)"
proof (induction s arbitrary: c)
  case Nil
  then show ?case by (simp add: specNormalize_space_end)
next
  case (Cons d s)
  show ?case
  proof (cases "isSpace d")
    case True
    with Cons show ?thesis by (simp add: specNormalize_space_space)
  next
    case False
    with Cons.prems show ?thesis by (simp add: specNormalize_space_nonspace)
  qed
qed

lemma statusCode_refines_spec: "statusCode s = specNormalize s"
proof (induction s rule: length_induct)
  case (1 s)
  show ?case
  proof (cases s)
    case Nil
    then show ?thesis by simp
  next
    case (Cons c cs)
    show ?thesis
    proof (cases "isSpace c")
      case True
      have "length (dropWhile isSpace cs) < length s"
        using Cons by (simp add: length_dropWhile_le less_Suc_eq_le)
      with 1 have "statusCode (dropWhile isSpace cs) = specNormalize (dropWhile isSpace cs)"
        by blast
      with True Cons show ?thesis
        by (simp add: statusCode_space specNormalize_space)
    next
      case False
      from 1 Cons have "statusCode cs = specNormalize cs" by simp
      with False Cons show ?thesis
        by (simp add: statusCode_nonspace specNormalize_nonspace)
    qed
  qed
qed

text \<open>
  Claim C5. For a filter label other than \<open>All\<close>, the status code computed by the screen is
  the label lower-cased with each run of white space replaced by one underscore (so that
  \<open>Out for Delivery\<close> gives \<open>out_for_delivery\<close>), and the visible list is exactly the orders
  whose status is that code: every visible order has it, every stored order that has it is
  visible, the visible list is a subsequence of the stored list, and when no order has the
  code the visible list is empty.
\<close>

theorem filteredOrders_selects_status:
  assumes "label \<noteq> ''All''"
  shows "statusCode label = specNormalize label
       \<and> filteredOrders os label =
           filter (\<lambda>order. field order ''status'' = JStr (specNormalize label)) os
       \<and> (\<forall>order. order \<in> set (filteredOrders os label) \<longleftrightarrow>
              order \<in> set os \<and> field order ''status'' = JStr (specNormalize label))
       \<and> subseq (filteredOrders os label) os
       \<and> ((\<forall>order\<in>set os. field order ''status'' \<noteq> JStr (specNormalize label))
            \<longrightarrow> filteredOrders os label = [])
       \<and> specNormalize ''Out for Delivery'' = ''out_for_delivery''"
proof -
  have code: "statusCode label = specNormalize label"
    by (rule statusCode_refines_spec)
  have sel: "filteredOrders os label =
      filter (\<lambda>order. field order ''status'' = JStr (specNormalize label)) os"
    using assms by (simp add: filteredOrders_def code)
  have mem: "\<forall>order. order \<in> set (filteredOrders os label) \<longleftrightarrow>
      order \<in> set os \<and> field order ''status'' = JStr (specNormalize label)"
    by (simp add: sel)
  have sub: "subseq (filteredOrders os label) os"
    by (simp add: sel)
  have none: "(\<forall>order\<in>set os. field order ''status'' \<noteq> JStr (specNormalize label))
      \<longrightarrow> filteredOrders os label = []"
    by (simp add: sel)
  have ex: "specNormalize ''Out for Delivery'' = ''out_for_delivery''"
    by code_simp
  from code sel mem sub none ex show ?thesis by blast
qed

theorem filteredOrders_selects_status_witness:
  "''Processing'' \<noteq> ''All''
   \<and> filteredOrders
        [[(''orderId'', JStr ''A1''), (''status'', JStr ''processing'')],
         [(''orderId'', JStr ''A2''), (''status'', JStr ''delivered'')],
         [(''orderId'', JStr ''A3''), (''status'', JStr ''processing'')]] ''Processing''
      = [[(''orderId'', JStr ''A1''), (''status'', JStr ''processing'')],
         [(''orderId'', JStr ''A3''), (''status'', JStr ''processing'')]]
   \<and> ''Out for Delivery'' \<noteq> ''All''
   \<and> list_all (\<lambda>order. field order ''status'' \<noteq> JStr (specNormalize ''Out for Delivery''))
         [[(''orderId'', JStr ''A1''), (''status'', JStr ''processing'')]]
   \<and> filteredOrders [[(''orderId'', JStr ''A1''), (''status'', JStr ''processing'')]]
         ''Out for Delivery'' = []"
proof -
  have ne: "''Processing'' \<noteq> ''All''" by simp
  have sn: "specNormalize ''Processing'' = ''processing''" by code_simp
  note inst = filteredOrders_selects_status [OF ne,
      of "[[(''orderId'', JStr ''A1''), (''status'', JStr ''processing'')],
         [(''orderId'', JStr ''A2''), (''status'', JStr ''delivered'')],
         [(''orderId'', JStr ''A3''), (''status'', JStr ''processing'')]]"]
  have ne': "''Out for Delivery'' \<noteq> ''All''" by simp
  note inst' = filteredOrders_selects_status [OF ne',
      of "[[(''orderId'', JStr ''A1''), (''status'', JStr ''processing'')]]"]
  have none: "\<forall>order\<in>set [[(''orderId'', JStr ''A1''), (''status'', JStr ''processing'')]].
      field order ''status'' \<noteq> JStr (specNormalize ''Out for Delivery'')"
    using inst' by (simp add: field_def)
  from inst inst' none show ?thesis
    by (simp add: sn field_def)
qed

subsection \<open>Evaluation of the example inputs\<close>

lemma exampleProfile_nonempty [simp]: "exampleProfile \<noteq> []"
  by (simp add: exampleProfile_def)

lemma readCredentials_example [simp]:
  "readCredentials (exampleEnv res) = Inr exampleRequest"
  by (simp add: readCredentials_def exampleEnv_def exampleStorage_def exampleParse_def
      present_def field_def getBackendUrl_def API_BASE_URL_def exampleRequest_def Let_def)

lemma handleResponse_example [simp]:
  "handleResponse exampleBody = Inr [SetOrders [exampleOrder], ConsoleLog 1]"
  by (simp add: handleResponse_def exampleBody_def field_def call_map_def
      withValidProducts_def exampleOrder_def)

lemma run_example:
  "run (exampleEnv res) initialComponent [Mount, Settle 0 (Resolved exampleBody)]
   = \<lparr>view = \<lparr>orders = [exampleOrder], loading = False, refreshing = False,
              selectedFilter = ''all''\<rparr>,
      phase = Mounted, interval = True, inflight = [],
      issued = [AxiosGet exampleRequest, SetOrders [exampleOrder], ConsoleLog 1,
                SetLoading False, SetRefreshing False]\<rparr>"
  by (simp add: run_def startFetch_def issue_def applyEffects_def initialComponent_def
      initialScreen_def afterRequest_def onFinally_def)

subsection \<open>The initial filter\<close>

lemma selectedFilter_applyEffect [simp]:
  "selectedFilter (applyEffect eff s) = selectedFilter s"
  by (cases eff) simp_all

lemma selectedFilter_applyEffects [simp]:
  "selectedFilter (applyEffects effs s) = selectedFilter s"
  unfolding applyEffects_def by (induction effs arbitrary: s) simp_all

lemma selectedFilter_issue [simp]:
  "selectedFilter (view (issue effs c)) = selectedFilter (view c)"
  by (simp add: issue_def)

lemma selectedFilter_startFetch [simp]:
  "selectedFilter (view (startFetch r e c)) = selectedFilter (view c)"
  by (simp add: startFetch_def split: sum.splits)

lemma selectedFilter_step:
  "\<not> isSelect ev \<Longrightarrow> selectedFilter (view (step e c ev)) = selectedFilter (view c)"
  by (cases ev) (simp_all add: Let_def split: list.splits)

lemma selectedFilter_run:
  "\<forall>ev\<in>set evs. \<not> isSelect ev \<Longrightarrow>
   selectedFilter (view (run e c evs)) = selectedFilter (view c)"
  unfolding run_def
  by (induction evs arbitrary: c) (simp_all add: selectedFilter_step)

text \<open>
  Claim C10. The filter label of the initial state is the lower-case \<open>all\<close>, which is not
  the sentinel \<open>All\<close>, and it stays so until the user selects a filter. With that label the
  visible list is computed by the filtering branch with status code \<open>all\<close>: it consists of
  the orders whose status is literally \<open>all\<close>, and is empty when no order has that status.
\<close>

theorem initial_filter_is_not_the_sentinel:
  "selectedFilter initialScreen = ''all''
   \<and> selectedFilter initialScreen \<noteq> ''All''
   \<and> ((\<forall>ev\<in>set evs. \<not> isSelect ev) \<longrightarrow>
        selectedFilter (view (run e initialComponent evs)) = ''all'')
   \<and> statusCode ''all'' = ''all''
   \<and> filteredOrders os ''all'' = filter (\<lambda>order. field order ''status'' = JStr ''all'') os
   \<and> ((\<forall>order\<in>set os. field order ''status'' \<noteq> JStr ''all'') \<longrightarrow>
        filteredOrders os ''all'' = [])"
proof -
  have init: "selectedFilter initialScreen = ''all''"
    by (simp add: initialScreen_def)
  have ne: "selectedFilter initialScreen \<noteq> ''All''"
    by (simp add: initialScreen_def)
  have keep: "(\<forall>ev\<in>set evs. \<not> isSelect ev) \<longrightarrow>
      selectedFilter (view (run e initialComponent evs)) = ''all''"
    using selectedFilter_run[of evs e initialComponent]
    by (simp add: initialComponent_def initialScreen_def)
  have code: "statusCode ''all'' = ''all''"
    by code_simp
  have sel: "filteredOrders os ''all'' =
      filter (\<lambda>order. field order ''status'' = JStr ''all'') os"
    by (simp add: filteredOrders_def code)
  have none: "(\<forall>order\<in>set os. field order ''status'' \<noteq> JStr ''all'') \<longrightarrow>
      filteredOrders os ''all'' = []"
    by (simp add: sel)
  from init ne keep code sel none show ?thesis by blast
qed

theorem initial_filter_is_not_the_sentinel_witness:
  "list_all (\<lambda>ev. \<not> isSelect ev) [Mount, Settle 0 (Resolved exampleBody)]
   \<and> list_all (\<lambda>order. field order ''status'' \<noteq> JStr ''all'') [exampleOrder]
   \<and> orders (view (run (exampleEnv (Resolved exampleBody)) initialComponent
                     [Mount, Settle 0 (Resolved exampleBody)])) = [exampleOrder]
   \<and> selectedFilter (view (run (exampleEnv (Resolved exampleBody)) initialComponent
                     [Mount, Settle 0 (Resolved exampleBody)])) = ''all''
   \<and> filteredOrders [exampleOrder] ''all'' = []"
proof -
  have evs: "\<forall>ev\<in>set [Mount, Settle 0 (Resolved exampleBody)]. \<not> isSelect ev"
    by simp
  have sts: "\<forall>order\<in>set [exampleOrder]. field order ''status'' \<noteq> JStr ''all''"
    by (simp add: exampleOrder_def field_def)
  note inst = initial_filter_is_not_the_sentinel
    [of "[Mount, Settle 0 (Resolved exampleBody)]" "exampleEnv (Resolved exampleBody)"
        "[exampleOrder]"]
  from inst evs sts show ?thesis
    by (simp add: run_example)
qed

subsection \<open>Image URL resolution\<close>

lemma str_includes_iff: "str_includes s pat \<longleftrightarrow> (\<exists>u v. s = u @ pat @ v)"
proof (induction s)
  case Nil
  then show ?case by auto
next
  case (Cons c cs)
  show ?case
  proof
    assume "str_includes (c # cs) pat"
    then consider "prefix pat (c # cs)" | "str_includes cs pat" by auto
    then show "\<exists>u v. c # cs = u @ pat @ v"
    proof cases
      case 1
      then obtain v where "c # cs = pat @ v" by (auto simp: prefix_def)
      then have "c # cs = [] @ pat @ v" by simp
      then show ?thesis by blast
    next
      case 2
      with Cons.IH obtain u v where "cs = u @ pat @ v" by blast
      then have "c # cs = (c # u) @ pat @ v" by simp
      then show ?thesis by blast
    qed
  next
    assume "\<exists>u v. c # cs = u @ pat @ v"
    then obtain u v where uv: "c # cs = u @ pat @ v" by blast
    show "str_includes (c # cs) pat"
    proof (cases u)
      case Nil
      with uv have "prefix pat (c # cs)" by (simp add: prefix_def)
      then show ?thesis by simp
    next
      case (Cons a u')
      with uv have "cs = u' @ pat @ v" by simp
      with Cons.IH have "str_includes cs pat" by blast
      then show ?thesis by simp
    qed
  qed
qed

lemma str_includes_embed:
  "str_includes s pat \<Longrightarrow> str_includes (a @ s @ b) pat"
proof -
  assume "str_includes s pat"
  then obtain u v where "s = u @ pat @ v" by (auto simp: str_includes_iff)
  then have "a @ s @ b = (a @ u) @ pat @ (v @ b)" by simp
  then show ?thesis unfolding str_includes_iff by blast
qed

lemma replaceOrigin_http:
  assumes "host \<noteq> []" and "CHR ''/'' \<notin> set host" and "rest = [] \<or> prefix ''/'' rest"
  shows "replaceOrigin (''http://'' @ host @ rest) r = r @ rest"
proof -
  obtain h hs where host: "host = h # hs" using assms(1) by (cases host) auto
  have h: "h \<noteq> CHR ''/''" using assms(2) host by auto
  have "dropWhile (\<lambda>d. d \<noteq> CHR ''/'') (host @ rest) = dropWhile (\<lambda>d. d \<noteq> CHR ''/'') rest"
    using assms(2) by (intro dropWhile_append2) auto
  also have "\<dots> = rest"
    using assms(3) by (cases rest) auto
  finally have dw: "dropWhile (\<lambda>d. d \<noteq> CHR ''/'') (host @ rest) = rest" .
  show ?thesis
    using h dw by (simp add: host)
qed

text \<open>
  Claim C9, as the code has it. The empty path gives the empty string. A path that starts
  with \<open>/uploads/\<close> is appended to the base URL as it is, one that starts with \<open>uploads/\<close> is
  appended after a slash, and any other non-empty path that does not start with \<open>http\<close> is
  appended after \<open>/uploads/\<close>; in these three cases the result is an absolute URL. A path
  that starts with \<open>http\<close> and mentions neither \<open>localhost\<close> nor \<open>127.0.0.1\<close> is returned
  unchanged. A path \<open>http://host\<close> followed by nothing or by a part that starts with a slash,
  whose host mentions \<open>localhost\<close> or \<open>127.0.0.1\<close>, has \<open>http://host\<close> replaced by the base
  URL.
\<close>

theorem getImageUrl_cases:
  "getImageUrl [] = []
   \<and> (prefix ''/uploads/'' p \<longrightarrow> getImageUrl p = getBackendUrl @ p)
   \<and> (prefix ''uploads/'' p \<longrightarrow> getImageUrl p = getBackendUrl @ ''/'' @ p)
   \<and> (p \<noteq> [] \<and> \<not> prefix ''http'' p \<and> \<not> prefix ''/uploads/'' p \<and> \<not> prefix ''uploads/'' p
        \<longrightarrow> getImageUrl p = getBackendUrl @ ''/uploads/'' @ p)
   \<and> (p \<noteq> [] \<and> \<not> prefix ''http'' p \<longrightarrow> absoluteUrl (getImageUrl p))
   \<and> (prefix ''http'' p \<and> \<not> str_includes p ''localhost'' \<and> \<not> str_includes p ''127.0.0.1''
        \<longrightarrow> getImageUrl p = p)
   \<and> (host \<noteq> [] \<and> CHR ''/'' \<notin> set host \<and> (rest = [] \<or> prefix ''/'' rest)
        \<and> (str_includes host ''localhost'' \<or> str_includes host ''127.0.0.1'')
        \<longrightarrow> getImageUrl (''http://'' @ host @ rest) = getBackendUrl @ rest)"
proof -
  have empty: "getImageUrl [] = []"
    by (simp add: getImageUrl_def)
  have up1: "prefix ''/uploads/'' p \<longrightarrow> getImageUrl p = getBackendUrl @ p"
    by (auto simp: getImageUrl_def prefix_def)
  have up2: "prefix ''uploads/'' p \<longrightarrow> getImageUrl p = getBackendUrl @ ''/'' @ p"
    by (auto simp: getImageUrl_def prefix_def)
  have other: "p \<noteq> [] \<and> \<not> prefix ''http'' p \<and> \<not> prefix ''/uploads/'' p \<and> \<not> prefix ''uploads/'' p
        \<longrightarrow> getImageUrl p = getBackendUrl @ ''/uploads/'' @ p"
    by (simp add: getImageUrl_def)
  have abs: "p \<noteq> [] \<and> \<not> prefix ''http'' p \<longrightarrow> absoluteUrl (getImageUrl p)"
    by (simp add: getImageUrl_def absoluteUrl_def getBackendUrl_def API_BASE_URL_def Let_def)
  have same: "prefix ''http'' p \<and> \<not> str_includes p ''localhost'' \<and> \<not> str_includes p ''127.0.0.1''
        \<longrightarrow> getImageUrl p = p"
    by (auto simp: getImageUrl_def)
  have local: "host \<noteq> [] \<and> CHR ''/'' \<notin> set host \<and> (rest = [] \<or> prefix ''/'' rest)
        \<and> (str_includes host ''localhost'' \<or> str_includes host ''127.0.0.1'')
        \<longrightarrow> getImageUrl (''http://'' @ host @ rest) = getBackendUrl @ rest"
  proof (intro impI, elim conjE)
    assume a: "host \<noteq> []" "CHR ''/'' \<notin> set host" "rest = [] \<or> prefix ''/'' rest"
      and inc: "str_includes host ''localhost'' \<or> str_includes host ''127.0.0.1''"
    from inc have "str_includes (''http://'' @ host @ rest) ''localhost''
        \<or> str_includes (''http://'' @ host @ rest) ''127.0.0.1''"
      using str_includes_embed by blast
    moreover have "prefix ''http'' (''http://'' @ host @ rest)" by simp
    moreover have "''http://'' @ host @ rest \<noteq> []" by simp
    ultimately have "getImageUrl (''http://'' @ host @ rest)
        = replaceOrigin (''http://'' @ host @ rest) getBackendUrl"
      unfolding getImageUrl_def Let_def by (simp only: if_True if_False)
    also have "\<dots> = getBackendUrl @ rest"
      using a by (rule replaceOrigin_http)
    finally show "getImageUrl (''http://'' @ host @ rest) = getBackendUrl @ rest" .
  qed
  from empty up1 up2 other abs same local show ?thesis by blast
qed

theorem getImageUrl_cases_witness:
  "prefix ''/uploads/'' ''/uploads/a.png''
   \<and> getImageUrl ''/uploads/a.png'' = ''https://dummy-bac.onrender.com/uploads/a.png''
   \<and> prefix ''uploads/'' ''uploads/a.png''
   \<and> getImageUrl ''uploads/a.png'' = ''https://dummy-bac.onrender.com/uploads/a.png''
   \<and> \<not> prefix ''http'' ''a.png'' \<and> \<not> prefix ''/uploads/'' ''a.png''
   \<and> \<not> prefix ''uploads/'' ''a.png''
   \<and> getImageUrl ''a.png'' = ''https://dummy-bac.onrender.com/uploads/a.png''
   \<and> absoluteUrl (getImageUrl ''a.png'')
   \<and> prefix ''http'' ''https://cdn.example.com/a.png''
   \<and> \<not> str_includes ''https://cdn.example.com/a.png'' ''localhost''
   \<and> \<not> str_includes ''https://cdn.example.com/a.png'' ''127.0.0.1''
   \<and> getImageUrl ''https://cdn.example.com/a.png'' = ''https://cdn.example.com/a.png''
   \<and> CHR ''/'' \<notin> set ''localhost:5000'' \<and> prefix ''/'' ''/uploads/a.png''
   \<and> str_includes ''localhost:5000'' ''localhost''
   \<and> getImageUrl (''http://'' @ ''localhost:5000'' @ ''/uploads/a.png'')
       = ''https://dummy-bac.onrender.com/uploads/a.png''"
proof -
  note i1 = getImageUrl_cases [of "''/uploads/a.png''" "''localhost:5000''" "''/uploads/a.png''"]
  note i2 = getImageUrl_cases [of "''uploads/a.png''" "''localhost:5000''" "''/uploads/a.png''"]
  note i3 = getImageUrl_cases [of "''a.png''" "''localhost:5000''" "''/uploads/a.png''"]
  note i4 = getImageUrl_cases [of "''https://cdn.example.com/a.png''" "''localhost:5000''"
      "''/uploads/a.png''"]
  have c1: "getImageUrl ''/uploads/a.png'' = ''https://dummy-bac.onrender.com/uploads/a.png''"
    using i1 by (simp add: getBackendUrl_def API_BASE_URL_def)
  have c2: "getImageUrl ''uploads/a.png'' = ''https://dummy-bac.onrender.com/uploads/a.png''"
    using i2 by (simp add: getBackendUrl_def API_BASE_URL_def)
  have c3: "getImageUrl ''a.png'' = ''https://dummy-bac.onrender.com/uploads/a.png''
      \<and> absoluteUrl (getImageUrl ''a.png'')"
    using i3 by (simp add: getBackendUrl_def API_BASE_URL_def absoluteUrl_def)
  have c4: "\<not> str_includes ''https://cdn.example.com/a.png'' ''localhost''
      \<and> \<not> str_includes ''https://cdn.example.com/a.png'' ''127.0.0.1''
      \<and> getImageUrl ''https://cdn.example.com/a.png'' = ''https://cdn.example.com/a.png''"
    using i4 by simp
  have c5: "str_includes ''localhost:5000'' ''localhost''
      \<and> getImageUrl (''http://'' @ ''localhost:5000'' @ ''/uploads/a.png'')
          = ''https://dummy-bac.onrender.com/uploads/a.png''"
    using i1 by (simp add: getBackendUrl_def API_BASE_URL_def)
  from c1 c2 c3 c4 c5 show ?thesis by (simp add: absoluteUrl_def)
qed

text \<open>
  Not every path gives an absolute URL: for the empty path the guard at the head of
  \<^verbatim>\<open>getImageUrl\<close> returns the empty string.
\<close>

theorem getImageUrl_empty_counterexample:
  "getImageUrl [] = [] \<and> \<not> absoluteUrl (getImageUrl [])"
  by (simp add: getImageUrl_def absoluteUrl_def)

subsection \<open>The order fetcher\<close>

lemma array_map_list_all2:
  "array_map f xs = Inr ys \<Longrightarrow> list_all2 (\<lambda>x y. f x = Inr y) xs ys"
  by (induction xs arbitrary: ys) (auto split: sum.splits)

lemma handleResponse_cases:
  "(\<exists>err. handleResponse data = Inl err)
   \<or> handleResponse data = Inr []
   \<or> (\<exists>os. handleResponse data = Inr [SetOrders os, ConsoleLog (length os)])"
  by (auto simp: handleResponse_def split: sum.splits)

lemma handleResponse_non_success:
  "get_prop data ''success'' = Inr flag \<Longrightarrow> \<not> truthy flag \<Longrightarrow> handleResponse data = Inr []"
  by (simp add: handleResponse_def)

lemma handleResponse_success:
  "get_prop data ''success'' = Inr flag \<Longrightarrow> truthy flag \<Longrightarrow> handleResponse data = Inr effs \<Longrightarrow>
   \<exists>raws os. get_prop data ''data'' = Inr (JArr raws)
     \<and> array_map withValidProducts raws = Inr os
     \<and> effs = [SetOrders os, ConsoleLog (length os)]"
  by (auto simp: handleResponse_def call_map_def split: sum.splits jsval.splits)

lemma applyEffects_Nil [simp]: "applyEffects [] s = s"
  by (simp add: applyEffects_def)

lemma applyEffects_Cons [simp]: "applyEffects (x # xs) s = applyEffects xs (applyEffect x s)"
  by (simp add: applyEffects_def)

lemma applyEffects_append [simp]:
  "applyEffects (xs @ ys) s = applyEffects ys (applyEffects xs s)"
  by (simp add: applyEffects_def)

lemma applyEffects_onCatch [simp]: "applyEffects (onCatch r err) s = s"
  by (simp add: onCatch_def)

lemma orders_onFinally [simp]: "orders (applyEffects onFinally s) = orders s"
  by (simp add: onFinally_def)

lemma isSetOrders_onCatch [simp]: "filter isSetOrders (onCatch r err) = []"
  by (simp add: onCatch_def)

lemma isSetOrders_onFinally [simp]: "filter isSetOrders onFinally = []"
  by (simp add: onFinally_def)

lemma thrown_eq_Some:
  "thrown e = Some err \<longleftrightarrow>
     readCredentials e = Inl err
     \<or> (\<exists>rq. readCredentials e = Inr rq \<and> axios_get e rq = Rejected err)
     \<or> (\<exists>rq data. readCredentials e = Inr rq \<and> axios_get e rq = Resolved data
          \<and> handleResponse data = Inl err)"
  by (auto simp: thrown_def split: sum.splits net_result.splits)

lemma fetchOrders_thrown:
  "thrown e = Some err \<Longrightarrow>
   filter (\<lambda>x. \<not> isRequest x) (fetchOrders r e) = onCatch r err @ onFinally"
  by (auto simp: thrown_eq_Some fetchOrders_def afterRequest_def onCatch_def onFinally_def)

lemma alerts_onCatch [simp]: "alerts (onCatch r err @ effs) = (if r then 0 else 1) + alerts effs"
  by (simp add: alerts_def onCatch_def)

lemma alerts_onFinally [simp]: "alerts onFinally = 0"
  by (simp add: alerts_def onFinally_def)

lemma alerts_Cons_request [simp]: "alerts (AxiosGet rq # effs) = alerts effs"
  by (simp add: alerts_def)

lemma alerts_afterRequest:
  "alerts (afterRequest r res) =
     (case res of
        Rejected err \<Rightarrow> if r then 0 else 1
      | Resolved data \<Rightarrow>
         (case handleResponse data of Inl err \<Rightarrow> if r then 0 else 1 | Inr effs \<Rightarrow> 0))"
  using handleResponse_cases[of "case res of Resolved data \<Rightarrow> data | _ \<Rightarrow> JNull"]
  by (auto simp: afterRequest_def split: net_result.splits sum.splits)
     (auto simp: alerts_def onFinally_def)

lemma alerts_fetchOrders:
  "alerts (fetchOrders r e) = (if thrown e \<noteq> None \<and> \<not> r then 1 else 0)"
  by (auto simp: fetchOrders_def thrown_def alerts_afterRequest
      split: sum.splits net_result.splits)

lemma thrown_example_rejected [simp]: "thrown (exampleEnv (Rejected err)) = Some err"
  by (simp add: thrown_def) (simp add: exampleEnv_def)

lemma axios_get_example [simp]: "axios_get (exampleEnv res) rq = res"
  by (simp add: exampleEnv_def)

lemma handleResponse_rejectedBody [simp]: "handleResponse rejectedBody = Inr []"
  by (simp add: handleResponse_def rejectedBody_def field_def)

lemma thrown_example_resolved [simp]:
  "thrown (exampleEnv (Resolved exampleBody)) = None"
  "thrown (exampleEnv (Resolved rejectedBody)) = None"
  by (simp_all add: thrown_def)

text \<open>
  A customer identifier that cannot be converted to a string: the template literal throws
  before the request is made.
\<close>

lemma readCredentials_unconvertible_id:
  assumes "storage e ''userToken'' = Some tok" and "tok \<noteq> []"
    and "storage e ''userProfile'' = Some profile" and "profile \<noteq> []"
    and "json_parse e profile = Some (JObj [(''_id'', JObj [(''toString'', JStr ''x'')])])"
  shows "readCredentials e = Inl TypeError \<and> networkCalls (fetchOrders r e) = 0"
proof -
  have rc: "readCredentials e = Inl TypeError"
    using assms by (simp add: readCredentials_def present_def field_def Let_def)
  then show ?thesis
    by (simp add: fetchOrders_def networkCalls_def onCatch_def onFinally_def)
qed

lemma js_string_examples:
  "js_string nt (JStr ''u1'') = Inr ''u1''"
  "js_string nt JUndefined = Inr ''undefined''"
  "js_string nt (JObj [(''name'', JStr ''x'')]) = Inr ''[object Object]''"
  "js_string nt (JArr [JStr ''a'', JNull, JStr ''b'']) = Inr ''a,,b''"
  "js_string nt (JArr [JObj [(''toString'', JNull)]]) = Inl TypeError"
  by simp_all

text \<open>
  Claim C6. When the credential store has no token (neither under \<open>userToken\<close> nor under
  \<open>authToken\<close>) or no user profile, the call throws \<open>User not authenticated\<close> at once: the
  catch and finally blocks are all that runs, no request is issued (the count of network
  calls is zero) and no call is left in flight.
\<close>

theorem fetchOrders_unauthenticated:
  assumes "(\<not> present (storage e ''userToken'') \<and> \<not> present (storage e ''authToken''))
           \<or> \<not> present (storage e ''userProfile'')"
  shows "thrown e = Some (Error ''User not authenticated'')
       \<and> fetchOrders r e = onCatch r (Error ''User not authenticated'') @ onFinally
       \<and> networkCalls (fetchOrders r e) = 0
       \<and> inflight (startFetch r e c) = inflight c"
proof -
  have rc: "readCredentials e = Inl (Error ''User not authenticated'')"
    using assms by (auto simp: readCredentials_def Let_def)
  have th: "thrown e = Some (Error ''User not authenticated'')"
    by (simp add: thrown_def rc)
  have fo: "fetchOrders r e = onCatch r (Error ''User not authenticated'') @ onFinally"
    by (simp add: fetchOrders_def rc)
  have nc: "networkCalls (fetchOrders r e) = 0"
    by (simp add: fo networkCalls_def onCatch_def onFinally_def)
  have inf: "inflight (startFetch r e c) = inflight c"
    by (simp add: startFetch_def rc issue_def)
  from th fo nc inf show ?thesis by blast
qed

theorem fetchOrders_unauthenticated_witness:
  "\<not> present (storage emptyStoreEnv ''userToken'')
   \<and> \<not> present (storage emptyStoreEnv ''authToken'')
   \<and> networkCalls (fetchOrders False emptyStoreEnv) = 0
   \<and> fetchOrders False emptyStoreEnv =
       [ConsoleError (Error ''User not authenticated''), failureAlert,
        SetLoading False, SetRefreshing False]
   \<and> present (storage tokenOnlyEnv ''authToken'')
   \<and> \<not> present (storage tokenOnlyEnv ''userProfile'')
   \<and> networkCalls (fetchOrders False tokenOnlyEnv) = 0
   \<and> thrown tokenOnlyEnv = Some (Error ''User not authenticated'')"
proof -
  have h1: "(\<not> present (storage emptyStoreEnv ''userToken'')
             \<and> \<not> present (storage emptyStoreEnv ''authToken''))
            \<or> \<not> present (storage emptyStoreEnv ''userProfile'')"
    by (simp add: emptyStoreEnv_def present_def)
  have h2: "(\<not> present (storage tokenOnlyEnv ''userToken'')
             \<and> \<not> present (storage tokenOnlyEnv ''authToken''))
            \<or> \<not> present (storage tokenOnlyEnv ''userProfile'')"
    by (simp add: tokenOnlyEnv_def present_def)
  note i1 = fetchOrders_unauthenticated [OF h1, of False initialComponent]
  note i2 = fetchOrders_unauthenticated [OF h2, of False initialComponent]
  have s1: "\<not> present (storage emptyStoreEnv ''userToken'')
      \<and> \<not> present (storage emptyStoreEnv ''authToken'')"
    by (simp add: emptyStoreEnv_def present_def)
  have s2: "present (storage tokenOnlyEnv ''authToken'')
      \<and> \<not> present (storage tokenOnlyEnv ''userProfile'')"
    by (simp add: tokenOnlyEnv_def present_def)
  from i1 i2 s1 s2 show ?thesis
    by (simp add: onCatch_def onFinally_def failureAlert_def networkCalls_def)
qed

text \<open>
  Claim C7. A call of \<open>fetchOrders\<close> either replaces the stored order list as a whole or
  leaves it as it was. When the call throws (missing credentials, an unreadable profile, a
  transport error, a body of the wrong shape) the list is unchanged; when the envelope's
  success flag is falsy the list is unchanged; when the flag is truthy and nothing throws,
  the new list is the normalisation of every record of the payload, in order. The setter of
  the list is called at most once per call.
\<close>

theorem fetchOrders_atomic:
  "(thrown e = Some err \<longrightarrow> orders (applyEffects (fetchOrders r e) s) = orders s)
   \<and> (readCredentials e = Inr rq \<and> axios_get e rq = Resolved data
        \<and> get_prop data ''success'' = Inr flag \<and> \<not> truthy flag
      \<longrightarrow> orders (applyEffects (fetchOrders r e) s) = orders s)
   \<and> (readCredentials e = Inr rq \<and> axios_get e rq = Resolved data
        \<and> get_prop data ''success'' = Inr flag \<and> truthy flag \<and> thrown e = None
      \<longrightarrow> (\<exists>raws os. get_prop data ''data'' = Inr (JArr raws)
            \<and> list_all2 (\<lambda>raw order. withValidProducts raw = Inr order) raws os
            \<and> orders (applyEffects (fetchOrders r e) s) = os))
   \<and> length (filter isSetOrders (fetchOrders r e)) \<le> 1"
proof -
  have fail: "thrown e = Some err \<longrightarrow> orders (applyEffects (fetchOrders r e) s) = orders s"
    by (auto simp: thrown_eq_Some fetchOrders_def afterRequest_def)
  have nonsuccess: "readCredentials e = Inr rq \<and> axios_get e rq = Resolved data
        \<and> get_prop data ''success'' = Inr flag \<and> \<not> truthy flag
      \<longrightarrow> orders (applyEffects (fetchOrders r e) s) = orders s"
    by (auto simp: fetchOrders_def afterRequest_def handleResponse_non_success)
  have success: "readCredentials e = Inr rq \<and> axios_get e rq = Resolved data
        \<and> get_prop data ''success'' = Inr flag \<and> truthy flag \<and> thrown e = None
      \<longrightarrow> (\<exists>raws os. get_prop data ''data'' = Inr (JArr raws)
            \<and> list_all2 (\<lambda>raw order. withValidProducts raw = Inr order) raws os
            \<and> orders (applyEffects (fetchOrders r e) s) = os)"
  proof (intro impI, elim conjE)
    assume rc: "readCredentials e = Inr rq" and ax: "axios_get e rq = Resolved data"
      and fl: "get_prop data ''success'' = Inr flag" "truthy flag" and th: "thrown e = None"
    from th rc ax obtain effs where hr: "handleResponse data = Inr effs"
      by (auto simp: thrown_def split: sum.splits)
    from handleResponse_success[OF fl hr] obtain raws os where
      d: "get_prop data ''data'' = Inr (JArr raws)"
      and am: "array_map withValidProducts raws = Inr os"
      and effs: "effs = [SetOrders os, ConsoleLog (length os)]" by blast
    have "orders (applyEffects (fetchOrders r e) s) = os"
      by (simp add: fetchOrders_def rc ax afterRequest_def hr effs)
    with d array_map_list_all2[OF am] show "\<exists>raws os. get_prop data ''data'' = Inr (JArr raws)
            \<and> list_all2 (\<lambda>raw order. withValidProducts raw = Inr order) raws os
            \<and> orders (applyEffects (fetchOrders r e) s) = os" by blast
  qed
  have once: "length (filter isSetOrders (fetchOrders r e)) \<le> 1"
    using handleResponse_cases[of "case axios_get e (projr (readCredentials e)) of Resolved data \<Rightarrow> data | _ \<Rightarrow> JNull"]
    by (auto simp: fetchOrders_def afterRequest_def split: sum.splits net_result.splits)
  from fail nonsuccess success once show ?thesis by blast
qed

theorem fetchOrders_atomic_witness:
  "thrown (exampleEnv (Rejected networkError)) = Some networkError
   \<and> orders (applyEffects (fetchOrders False (exampleEnv (Rejected networkError)))
        (initialScreen\<lparr>orders := [exampleOrder]\<rparr>)) = [exampleOrder]
   \<and> readCredentials (exampleEnv (Resolved rejectedBody)) = Inr exampleRequest
   \<and> axios_get (exampleEnv (Resolved rejectedBody)) exampleRequest = Resolved rejectedBody
   \<and> get_prop rejectedBody ''success'' = Inr (JBool False) \<and> \<not> truthy (JBool False)
   \<and> orders (applyEffects (fetchOrders False (exampleEnv (Resolved rejectedBody)))
        (initialScreen\<lparr>orders := [exampleOrder]\<rparr>)) = [exampleOrder]
   \<and> get_prop exampleBody ''success'' = Inr (JBool True) \<and> truthy (JBool True)
   \<and> thrown (exampleEnv (Resolved exampleBody)) = None
   \<and> orders (applyEffects (fetchOrders False (exampleEnv (Resolved exampleBody)))
        initialScreen) = [exampleOrder]"
proof -
  note i1 = fetchOrders_atomic [of "exampleEnv (Rejected networkError)" networkError False
      "initialScreen\<lparr>orders := [exampleOrder]\<rparr>" exampleRequest rejectedBody "JBool False"]
  note i2 = fetchOrders_atomic [of "exampleEnv (Resolved rejectedBody)" networkError False
      "initialScreen\<lparr>orders := [exampleOrder]\<rparr>" exampleRequest rejectedBody "JBool False"]
  note i3 = fetchOrders_atomic [of "exampleEnv (Resolved exampleBody)" networkError False
      initialScreen exampleRequest exampleBody "JBool True"]
  have g1: "get_prop rejectedBody ''success'' = Inr (JBool False)"
    by (simp add: rejectedBody_def field_def)
  have g2: "get_prop exampleBody ''success'' = Inr (JBool True)"
    by (simp add: exampleBody_def field_def)
  have g3: "get_prop exampleBody ''data'' = Inr (JArr raws) \<Longrightarrow>
      list_all2 (\<lambda>raw order. withValidProducts raw = Inr order) raws os \<Longrightarrow> os = [exampleOrder]"
    for raws os
    by (auto simp: exampleBody_def field_def list_all2_Cons1 withValidProducts_def exampleOrder_def)
  have c1: "orders (applyEffects (fetchOrders False (exampleEnv (Rejected networkError)))
        (initialScreen\<lparr>orders := [exampleOrder]\<rparr>)) = [exampleOrder]"
    using i1 by simp
  have c2: "orders (applyEffects (fetchOrders False (exampleEnv (Resolved rejectedBody)))
        (initialScreen\<lparr>orders := [exampleOrder]\<rparr>)) = [exampleOrder]"
    using i2 g1 by simp
  have c3: "orders (applyEffects (fetchOrders False (exampleEnv (Resolved exampleBody)))
        initialScreen) = [exampleOrder]"
    using i3 g2 g3 by auto
  from c1 c2 c3 g1 g2 show ?thesis by simp
qed

lemma map_of_update_other:
  "k \<noteq> k' \<Longrightarrow> map_of (AList.update k' v al) k = map_of al k"
  by (simp add: update_conv')

lemma filter_update_other:
  "filter (\<lambda>kv. fst kv \<noteq> k) (AList.update k v al) = filter (\<lambda>kv. fst kv \<noteq> k) al"
  by (induction al) auto

lemma field_update_same: "field (AList.update k v al) k = v"
  by (simp add: field_def update_conv')

lemma default_not_absent:
  "(if truthy p then p else JArr []) \<noteq> JUndefined \<and> (if truthy p then p else JArr []) \<noteq> JNull"
  by (cases p) auto

lemma withValidProducts_products:
  "withValidProducts raw = Inr order \<Longrightarrow>
   map_of order ''products'' \<noteq> None \<and> field order ''products'' \<noteq> JUndefined
   \<and> field order ''products'' \<noteq> JNull"
  using default_not_absent
  by (auto simp: withValidProducts_def field_update_same update_conv' split: sum.splits)

lemma withValidProducts_record:
  "withValidProducts (JObj kvs) =
     Inr (AList.update ''products''
            (if truthy (field kvs ''products'') then field kvs ''products'' else JArr []) kvs)"
  by (simp add: withValidProducts_def)

lemma array_map_records:
  "array_map withValidProducts (map JObj recs) =
     Inr (map (\<lambda>kvs. AList.update ''products''
            (if truthy (field kvs ''products'') then field kvs ''products'' else JArr []) kvs)
          recs)"
  by (induction recs) (simp_all add: withValidProducts_record)

lemma missing_products_falsy:
  "map_of kvs ''products'' = None \<Longrightarrow> \<not> truthy (field kvs ''products'')"
  by (simp add: field_def)

lemma default_isArray:
  "isArray p \<or> \<not> truthy p \<Longrightarrow> isArray (if truthy p then p else JArr [])"
  by (cases p) auto

text \<open>
  Claim C8, as the code has it. A successful response whose payload is a list of raw order
  records stores the list of their normalisations, one for each record and in order. The
  normalisation of a record gives the empty array to a missing \<open>products\<close> field, and to a
  falsy one; it keeps a truthy \<open>products\<close> value as it is; every other binding of the record
  passes through unchanged and in place. So the \<open>products\<close> field of a stored order is
  bound and is neither \<open>undefined\<close> nor \<open>null\<close>, and it is an array whenever the record's own
  \<open>products\<close> is an array or is falsy.
\<close>

theorem successful_response_stores_normalised_orders:
  assumes "get_prop data ''success'' = Inr flag" and "truthy flag"
    and "get_prop data ''data'' = Inr (JArr (map JObj recs))"
  shows "\<exists>os. handleResponse data = Inr [SetOrders os, ConsoleLog (length os)]
     \<and> orders (applyEffects [SetOrders os, ConsoleLog (length os)] s) = os
     \<and> list_all2 (\<lambda>rec ord.
          withValidProducts (JObj rec) = Inr ord
          \<and> (map_of rec ''products'' = None \<longrightarrow> field ord ''products'' = JArr [])
          \<and> (\<not> truthy (field rec ''products'') \<longrightarrow> field ord ''products'' = JArr [])
          \<and> (truthy (field rec ''products'')
               \<longrightarrow> field ord ''products'' = field rec ''products'')
          \<and> (isArray (field rec ''products'') \<or> \<not> truthy (field rec ''products'')
               \<longrightarrow> isArray (field ord ''products''))
          \<and> (\<forall>k. k \<noteq> ''products'' \<longrightarrow> map_of ord k = map_of rec k)
          \<and> filter (\<lambda>kv. fst kv \<noteq> ''products'') ord
              = filter (\<lambda>kv. fst kv \<noteq> ''products'') rec
          \<and> map_of ord ''products'' \<noteq> None
          \<and> field ord ''products'' \<noteq> JUndefined \<and> field ord ''products'' \<noteq> JNull)
        recs os"
proof -
  let ?norm = "\<lambda>kvs. AList.update ''products''
      (if truthy (field kvs ''products'') then field kvs ''products'' else JArr []) kvs"
  let ?os = "map ?norm recs"
  have hr: "handleResponse data = Inr [SetOrders ?os, ConsoleLog (length ?os)]"
    using assms by (simp add: handleResponse_def call_map_def array_map_records)
  have st: "orders (applyEffects [SetOrders ?os, ConsoleLog (length ?os)] s) = ?os"
    by simp
  have each: "withValidProducts (JObj rec) = Inr (?norm rec)
          \<and> (map_of rec ''products'' = None \<longrightarrow> field (?norm rec) ''products'' = JArr [])
          \<and> (\<not> truthy (field rec ''products'') \<longrightarrow> field (?norm rec) ''products'' = JArr [])
          \<and> (truthy (field rec ''products'')
               \<longrightarrow> field (?norm rec) ''products'' = field rec ''products'')
          \<and> (isArray (field rec ''products'') \<or> \<not> truthy (field rec ''products'')
               \<longrightarrow> isArray (field (?norm rec) ''products''))
          \<and> (\<forall>k. k \<noteq> ''products'' \<longrightarrow> map_of (?norm rec) k = map_of rec k)
          \<and> filter (\<lambda>kv. fst kv \<noteq> ''products'') (?norm rec)
              = filter (\<lambda>kv. fst kv \<noteq> ''products'') rec
          \<and> map_of (?norm rec) ''products'' \<noteq> None
          \<and> field (?norm rec) ''products'' \<noteq> JUndefined
          \<and> field (?norm rec) ''products'' \<noteq> JNull" for rec
  proof -
    have eq: "withValidProducts (JObj rec) = Inr (?norm rec)"
      by (rule withValidProducts_record)
    have missing: "map_of rec ''products'' = None \<longrightarrow> field (?norm rec) ''products'' = JArr []"
      using missing_products_falsy[of rec] by (simp add: field_update_same)
    have falsy: "\<not> truthy (field rec ''products'') \<longrightarrow> field (?norm rec) ''products'' = JArr []"
      by (simp add: field_update_same)
    have keep: "truthy (field rec ''products'')
        \<longrightarrow> field (?norm rec) ''products'' = field rec ''products''"
      by (simp add: field_update_same)
    have array: "isArray (field rec ''products'') \<or> \<not> truthy (field rec ''products'')
        \<longrightarrow> isArray (field (?norm rec) ''products'')"
      using default_isArray[of "field rec ''products''"] by (simp only: field_update_same) blast
    have others: "\<forall>k. k \<noteq> ''products'' \<longrightarrow> map_of (?norm rec) k = map_of rec k"
      by (simp add: map_of_update_other)
    have bindings: "filter (\<lambda>kv. fst kv \<noteq> ''products'') (?norm rec)
        = filter (\<lambda>kv. fst kv \<noteq> ''products'') rec"
      by (rule filter_update_other)
    have bound: "map_of (?norm rec) ''products'' \<noteq> None"
      and defined: "field (?norm rec) ''products'' \<noteq> JUndefined"
      and nonnull: "field (?norm rec) ''products'' \<noteq> JNull"
      using withValidProducts_products[OF eq] by simp_all
    show ?thesis
      by (intro conjI; (fact eq missing falsy keep array others bindings bound defined nonnull))
  qed
  have la: "list_all2 (\<lambda>rec ord.
          withValidProducts (JObj rec) = Inr ord
          \<and> (map_of rec ''products'' = None \<longrightarrow> field ord ''products'' = JArr [])
          \<and> (\<not> truthy (field rec ''products'') \<longrightarrow> field ord ''products'' = JArr [])
          \<and> (truthy (field rec ''products'')
               \<longrightarrow> field ord ''products'' = field rec ''products'')
          \<and> (isArray (field rec ''products'') \<or> \<not> truthy (field rec ''products'')
               \<longrightarrow> isArray (field ord ''products''))
          \<and> (\<forall>k. k \<noteq> ''products'' \<longrightarrow> map_of ord k = map_of rec k)
          \<and> filter (\<lambda>kv. fst kv \<noteq> ''products'') ord
              = filter (\<lambda>kv. fst kv \<noteq> ''products'') rec
          \<and> map_of ord ''products'' \<noteq> None
          \<and> field ord ''products'' \<noteq> JUndefined \<and> field ord ''products'' \<noteq> JNull)
        recs ?os"
    unfolding list_all2_map2 list_all2_same using each by blast
  show ?thesis
    by (rule exI[of _ ?os]) (intro conjI; (fact hr st la))
qed

theorem successful_response_stores_normalised_orders_witness:
  "get_prop exampleBody ''success'' = Inr (JBool True) \<and> truthy (JBool True)
   \<and> get_prop exampleBody ''data''
       = Inr (JArr (map JObj [[(''orderId'', JStr ''A1''), (''status'', JStr ''processing''),
                              (''totalAmount'', JNum 100)]]))
   \<and> map_of [(''orderId'', JStr ''A1''), (''status'', JStr ''processing''),
             (''totalAmount'', JNum 100)] ''products'' = None
   \<and> handleResponse exampleBody = Inr [SetOrders [exampleOrder], ConsoleLog 1]
   \<and> field exampleOrder ''products'' = JArr []
   \<and> field exampleOrder ''status'' = JStr ''processing''
   \<and> isArray (field [(''products'', JArr [JObj [(''name'', JStr ''Tea'')]]),
                      (''orderId'', JStr ''A2'')] ''products'')
   \<and> handleResponse
        (JObj [(''success'', JBool True),
               (''data'', JArr (map JObj [[(''products'', JArr [JObj [(''name'', JStr ''Tea'')]]),
                                           (''orderId'', JStr ''A2'')]]))])
      = Inr [SetOrders [[(''products'', JArr [JObj [(''name'', JStr ''Tea'')]]),
                         (''orderId'', JStr ''A2'')]], ConsoleLog 1]"
proof -
  let ?rec1 = "[(''orderId'', JStr ''A1''), (''status'', JStr ''processing''),
      (''totalAmount'', JNum 100)]"
  let ?rec2 = "[(''products'', JArr [JObj [(''name'', JStr ''Tea'')]]), (''orderId'', JStr ''A2'')]"
  let ?body2 = "JObj [(''success'', JBool True), (''data'', JArr (map JObj [?rec2]))]"
  have s1: "get_prop exampleBody ''success'' = Inr (JBool True)"
    by (simp add: exampleBody_def field_def)
  have d1: "get_prop exampleBody ''data'' = Inr (JArr (map JObj [?rec1]))"
    by (simp add: exampleBody_def field_def)
  have s2: "get_prop ?body2 ''success'' = Inr (JBool True)"
    by (simp add: field_def)
  have d2: "get_prop ?body2 ''data'' = Inr (JArr (map JObj [?rec2]))"
    by (simp add: field_def)
  have t: "truthy (JBool True)" by simp
  have m: "map_of ?rec1 ''products'' = None" by simp
  have a2: "isArray (field ?rec2 ''products'')" by (simp add: field_def)
  have t2: "truthy (field ?rec2 ''products'')" by (simp add: field_def)
  from successful_response_stores_normalised_orders [OF s1 t d1, of initialScreen]
  obtain ord1 where h1: "handleResponse exampleBody = Inr [SetOrders [ord1], ConsoleLog 1]"
    and w1: "withValidProducts (JObj ?rec1) = Inr ord1"
    and p1: "field ord1 ''products'' = JArr []"
    using m by (clarsimp simp: list_all2_Cons1)
  have "withValidProducts (JObj ?rec1) = Inr exampleOrder"
    by (simp add: withValidProducts_def field_def exampleOrder_def)
  with w1 have o1: "ord1 = exampleOrder" by simp
  from successful_response_stores_normalised_orders [OF s2 t d2, of initialScreen]
  obtain ord2 where h2: "handleResponse ?body2 = Inr [SetOrders [ord2], ConsoleLog 1]"
    and w2: "withValidProducts (JObj ?rec2) = Inr ord2"
    by (clarsimp simp: list_all2_Cons1)
  have "withValidProducts (JObj ?rec2) = Inr ?rec2"
    by (simp add: withValidProducts_def field_def)
  with w2 have o2: "ord2 = ?rec2" by simp
  have c1: "handleResponse exampleBody = Inr [SetOrders [exampleOrder], ConsoleLog 1]"
    using h1 o1 by simp
  have c2: "field exampleOrder ''products'' = JArr []"
    using p1 o1 by simp
  have c3: "field exampleOrder ''status'' = JStr ''processing''"
    by (simp add: field_def exampleOrder_def)
  have c4: "handleResponse ?body2 = Inr [SetOrders [?rec2], ConsoleLog 1]"
    using h2 o2 by simp
  from s1 t d1 m c1 c2 c3 a2 c4 show ?thesis by simp
qed

text \<open>
  The \<open>products\<close> field of a stored order is not always a sequence: a record whose
  \<open>products\<close> is a number keeps the number.
\<close>

theorem products_not_a_sequence_counterexample:
  "handleResponse
     (JObj [(''success'', JBool True),
            (''data'', JArr [JObj [(''orderId'', JStr ''A1''), (''products'', JNum 3)]])])
   = Inr [SetOrders [[(''orderId'', JStr ''A1''), (''products'', JNum 3)]], ConsoleLog 1]
   \<and> \<not> isArray (field [(''orderId'', JStr ''A1''), (''products'', JNum 3)] ''products'')"
  by (simp add: handleResponse_def call_map_def withValidProducts_def field_def)

subsection \<open>The refresh scheduler\<close>

lemma issued_issue [simp]: "issued (issue effs c) = issued c @ effs"
  by (simp add: issue_def)

lemma stepEffects_Settle:
  "i < length (inflight c) \<Longrightarrow> stepEffects e c (Settle i res) = afterRequest (inflight c ! i) res"
  by (simp add: stepEffects_def)

lemma stepEffects_Tick:
  "interval c \<Longrightarrow> readCredentials e = Inr rq \<Longrightarrow>
   stepEffects e c Tick = [AxiosGet rq] \<and> inflight (step e c Tick) = inflight c @ [False]"
  by (simp add: stepEffects_def startFetch_def initialScreen_def)

text \<open>
  Which \<open>refreshing\<close> a call reads: a tick reads the initial \<open>False\<close>, a pull reads the
  value on screen before the pull. A failing call raises the alert exactly when the value it
  reads is \<open>False\<close>.
\<close>

lemma stepEffects_PullToRefresh:
  "phase c = Mounted \<Longrightarrow> \<not> loading (view c) \<Longrightarrow>
   filteredOrders (orders (view c)) (selectedFilter (view c)) \<noteq> [] \<Longrightarrow>
   readCredentials e = Inr rq \<Longrightarrow>
   stepEffects e c PullToRefresh = [SetRefreshing True, AxiosGet rq]
   \<and> inflight (step e c PullToRefresh) = inflight c @ [refreshing (view c)]"
  by (simp add: stepEffects_def startFetch_def issue_def Let_def)

lemma alerts_stepEffects_Settle:
  "i < length (inflight c) \<Longrightarrow>
   alerts (stepEffects e c (Settle i res)) =
     (case res of
        Rejected err \<Rightarrow> if inflight c ! i then 0 else 1
      | Resolved data \<Rightarrow>
         (case handleResponse data of
            Inl err \<Rightarrow> if inflight c ! i then 0 else 1
          | Inr effs \<Rightarrow> 0))"
  by (simp add: stepEffects_Settle alerts_afterRequest)

lemma onFinally_in_afterRequest:
  "SetLoading False \<in> set (afterRequest r res) \<and> SetRefreshing False \<in> set (afterRequest r res)"
  by (simp add: afterRequest_def onFinally_def)

lemma afterRequest_Rejected:
  "afterRequest r (Rejected err) = onCatch r err @ onFinally"
  by (simp add: afterRequest_def)


lemma run_mount_unmount_example:
  "run (exampleEnv res) initialComponent [Mount, Unmount]
   = \<lparr>view = initialScreen, phase = Unmounted, interval = False, inflight = [False],
      issued = [AxiosGet exampleRequest]\<rparr>"
  by (simp add: run_def startFetch_def issue_def initialComponent_def initialScreen_def)

lemma run_tick_example:
  "run (exampleEnv res) initialComponent [Mount, Settle 0 (Resolved exampleBody), Tick]
   = \<lparr>view = \<lparr>orders = [exampleOrder], loading = False, refreshing = False,
              selectedFilter = ''all''\<rparr>,
      phase = Mounted, interval = True, inflight = [False],
      issued = [AxiosGet exampleRequest, SetOrders [exampleOrder], ConsoleLog 1,
                SetLoading False, SetRefreshing False, AxiosGet exampleRequest]\<rparr>"
  by (simp add: run_def startFetch_def issue_def initialComponent_def initialScreen_def
      afterRequest_def onFinally_def)

text \<open>
  Claim C1, at a failing background tick. The screen is mounted, the first fetch succeeds,
  the timer fires and the request of that tick is rejected with a network error. The tick
  runs the \<open>fetchOrders\<close> of the first render, whose \<open>refreshing\<close> is \<open>False\<close>, so the guard
  of the catch block lets the alert through: one alert is raised, where the claim, and the
  comment above the guard, want the failure of a background refresh to be logged only.
\<close>

theorem background_tick_failure_raises_alert:
  "inflight (run (exampleEnv (Rejected networkError)) initialComponent
       [Mount, Settle 0 (Resolved exampleBody), Tick]) = [False]
   \<and> stepEffects (exampleEnv (Rejected networkError))
       (run (exampleEnv (Rejected networkError)) initialComponent
          [Mount, Settle 0 (Resolved exampleBody), Tick])
       (Settle 0 (Rejected networkError))
     = [ConsoleError networkError, failureAlert, SetLoading False, SetRefreshing False]
   \<and> alerts (stepEffects (exampleEnv (Rejected networkError))
       (run (exampleEnv (Rejected networkError)) initialComponent
          [Mount, Settle 0 (Resolved exampleBody), Tick])
       (Settle 0 (Rejected networkError))) = 1
   \<and> alerts (fetchOrders (refreshing initialScreen) (exampleEnv (Rejected networkError))) = 1"
  by (simp add: run_tick_example stepEffects_Settle afterRequest_Rejected onCatch_def
      onFinally_def failureAlert_def alerts_def fetchOrders_def initialScreen_def)

text \<open>
  Claim C2, at a rejecting envelope. The request resolves with the body
  \<open>{success: false, error: ...}\<close>. The test of the success flag has no else branch: nothing
  is thrown, nothing is logged as an error and no alert is raised; only the finally block
  runs. A transport error on the same request is logged and raises the alert.
\<close>

theorem non_success_envelope_raises_nothing:
  "get_prop rejectedBody ''success'' = Inr (JBool False)
   \<and> thrown (exampleEnv (Resolved rejectedBody)) = None
   \<and> fetchOrders False (exampleEnv (Resolved rejectedBody))
       = [AxiosGet exampleRequest, SetLoading False, SetRefreshing False]
   \<and> filter isErrorLog (fetchOrders False (exampleEnv (Resolved rejectedBody))) = []
   \<and> alerts (fetchOrders False (exampleEnv (Resolved rejectedBody))) = 0
   \<and> fetchOrders False (exampleEnv (Rejected networkError))
       = [AxiosGet exampleRequest, ConsoleError networkError, failureAlert,
          SetLoading False, SetRefreshing False]"
  by (simp add: fetchOrders_def afterRequest_def onCatch_def onFinally_def failureAlert_def
      alerts_def) (simp add: rejectedBody_def field_def)




lemma phase_issue [simp]: "phase (issue effs c) = phase c"
  by (simp add: issue_def)

lemma interval_issue [simp]: "interval (issue effs c) = interval c"
  by (simp add: issue_def)




text \<open>
  The setter calls of a fetch that settles after the unmount are still made: the
  continuation of the call runs in full.
\<close>

lemma setter_calls_after_unmount:
  "filter isSetter
     (stepEffects (exampleEnv res)
        (run (exampleEnv res) initialComponent [Mount, Unmount])
        (Settle 0 (Resolved exampleBody)))
   = [SetOrders [exampleOrder], SetLoading False, SetRefreshing False]"
  by (simp add: run_mount_unmount_example stepEffects_Settle afterRequest_def onFinally_def)



end
